theory Spec2Isabelle
  imports Main "HOL-Library.Word"
begin

section \<open>The event classes of \<^verbatim>\<open>examples/game_event/main.cpp\<close>\<close>

text \<open>
  The program declares one polymorphic base class, \<^verbatim>\<open>GameEvent\<close>, and two classes
  derived from it. A \<^verbatim>\<open>std::type_index\<close> built from \<^verbatim>\<open>typeid\<close> names one of
  these classes; it is the key type of the dispatcher's table.
\<close>

datatype type_index = TI_GameEvent | TI_PlayerMoveEvent | TI_EnemySpawnEvent

text \<open>
  A \<^verbatim>\<open>float\<close> field is kept as its binary32 bit pattern: the dispatcher stores and
  forwards event payloads and never computes with them.
\<close>

type_synonym float = "32 word"

text \<open>
  An event object, by its most derived class. \<^verbatim>\<open>GameEvent\<close> has no pure virtual
  member, so a plain base object is a value too. Field order follows the
  declarations: \<^verbatim>\<open>PlayerMoveEvent {uid, x, y}\<close>,
  \<^verbatim>\<open>EnemySpawnEvent {enemyType, uid, x, y}\<close>.
\<close>

datatype game_event =
    GameEvent
  | PlayerMoveEvent "64 word" float float
  | EnemySpawnEvent string "64 word" float float

text \<open>\<^verbatim>\<open>std::type_index(typeid(event))\<close>: the dynamic class of the object.\<close>

fun typeid :: "game_event \<Rightarrow> type_index" where
  "typeid GameEvent = TI_GameEvent"
| "typeid (PlayerMoveEvent uid x y) = TI_PlayerMoveEvent"
| "typeid (EnemySpawnEvent enemyType uid x y) = TI_EnemySpawnEvent"

text \<open>
  The base-class lists as written after each class name:
  \<^verbatim>\<open>class PlayerMoveEvent : public GameEvent\<close>,
  \<^verbatim>\<open>class EnemySpawnEvent : public GameEvent\<close>.
\<close>

fun direct_bases :: "type_index \<Rightarrow> type_index list" where
  "direct_bases TI_GameEvent = []"
| "direct_bases TI_PlayerMoveEvent = [TI_GameEvent]"
| "direct_bases TI_EnemySpawnEvent = [TI_GameEvent]"

text \<open>
  \<open>is_base_of B D\<close>: class \<open>D\<close> is \<open>B\<close> or derives from it. No class of the program
  has a base that itself has a base, so the direct bases are all the bases.
\<close>

definition is_base_of :: "type_index \<Rightarrow> type_index \<Rightarrow> bool" where
  "is_base_of B D = (B = D \<or> B \<in> set (direct_bases D))"

text \<open>
  \<^verbatim>\<open>dynamic_cast<const T*>(&e)\<close>: the same object seen as a \<open>T\<close> when its dynamic
  class is \<open>T\<close> or derives from it (all inheritance here is public and single), the
  null pointer otherwise. The pointer form never throws.
\<close>

definition dynamic_cast :: "type_index \<Rightarrow> game_event \<Rightarrow> game_event option" where
  "dynamic_cast T e = (if is_base_of T (typeid e) then Some e else None)"

section \<open>Listeners and delivery closures\<close>

text \<open>
  \<^verbatim>\<open>TypedEventListener<T>::onEvent\<close> is pure virtual: what a handler does belongs to
  the subscriber. The observable effect of one call
  \<^verbatim>\<open>listener->onEvent(*typedEvent)\<close> is recorded as one entry of an output
  trace: which listener object, through which \<^verbatim>\<open>TypedEventListener<T>\<close> interface,
  with which event. The type \<open>'l\<close> stands for live listener objects: the program
  only ever registers pointers to objects the injector keeps alive. The handlers of
  the three listener classes only print the event, and no listener holds the
  dispatcher, so a handler neither registers nor publishes.
\<close>

datatype 'l call = OnEvent 'l type_index game_event

text \<open>
  The lambda that \<^verbatim>\<open>addEventListener<T>\<close> stores: it captures \<^verbatim>\<open>listener\<close> by
  value and is instantiated at \<open>T\<close>. The table is private and nothing else pushes
  into it, so every stored \<^verbatim>\<open>std::function\<close> has this shape.
\<close>

datatype 'l closure = Closure (expected: type_index) (captured: 'l)

text \<open>
  Calling the stored lambda:
  \<^verbatim>\<open>if (const T* typedEvent = dynamic_cast<const T*>(&e)) listener->onEvent(*typedEvent);\<close>
\<close>

fun invoke :: "'l closure \<Rightarrow> game_event \<Rightarrow> 'l call list \<Rightarrow> 'l call list" where
  "invoke (Closure T listener) e out =
     (case dynamic_cast T e of
        Some typedEvent \<Rightarrow> out @ [OnEvent listener T typedEvent]
      | None \<Rightarrow> out)"

section \<open>\<^verbatim>\<open>EventDispatcher\<close>\<close>

text \<open>
  The single private member,
  \<^verbatim>\<open>std::unordered_map<std::type_index, std::vector<std::function<...>>>\<close>:
  a partial map from class identities to vectors of closures.
\<close>

record 'l EventDispatcher =
  listeners :: "type_index \<rightharpoonup> 'l closure list"

text \<open>\<^verbatim>\<open>new EventDispatcher()\<close>: the table starts empty.\<close>

definition new_EventDispatcher :: "'l EventDispatcher" where
  "new_EventDispatcher = \<lparr>listeners = Map.empty\<rparr>"

text \<open>
  \<^verbatim>\<open>listeners[std::type_index(typeid(T))].push_back(lambda)\<close>: \<^verbatim>\<open>operator[]\<close>
  inserts an empty vector when the key is absent, then the closure is appended.
\<close>

definition addEventListener ::
  "type_index \<Rightarrow> 'l \<Rightarrow> 'l EventDispatcher \<Rightarrow> 'l EventDispatcher" where
  "addEventListener T listener d =
     d\<lparr>listeners := (listeners d)
         (T \<mapsto> (case listeners d T of None \<Rightarrow> [] | Some v \<Rightarrow> v) @ [Closure T listener])\<rparr>"

text \<open>The range-for of \<^verbatim>\<open>dispatchEvent\<close>: each element is called, front to back.\<close>

fun for_each :: "'l closure list \<Rightarrow> game_event \<Rightarrow> 'l call list \<Rightarrow> 'l call list" where
  "for_each [] event out = out"
| "for_each (listener # rest) event out = for_each rest event (invoke listener event out)"

text \<open>
  \<^verbatim>\<open>dispatchEvent\<close>: \<^verbatim>\<open>find\<close> on the dynamic class of the event; nothing happens
  when the key is absent. The method is not \<^verbatim>\<open>const\<close>, so the model returns the
  dispatcher as the body leaves it, next to the output trace.
\<close>

definition dispatchEvent ::
  "game_event \<Rightarrow> 'l EventDispatcher \<Rightarrow> 'l call list \<Rightarrow> 'l EventDispatcher \<times> 'l call list" where
  "dispatchEvent event d out =
     (case listeners d (typeid event) of
        None \<Rightarrow> (d, out)
      | Some second \<Rightarrow> (d, for_each second event out))"

section \<open>Clients of the public interface\<close>

text \<open>
  The two public members are the whole interface. A client, such as \<^verbatim>\<open>main\<close>, is
  a sequence of calls on one dispatcher; \<open>run\<close> performs them in order on the
  dispatcher and the output trace.
\<close>

datatype 'l api_call = AddEventListener type_index 'l | DispatchEvent game_event

fun step :: "'l api_call \<Rightarrow> 'l EventDispatcher \<times> 'l call list \<Rightarrow> 'l EventDispatcher \<times> 'l call list" where
  "step (AddEventListener T listener) (d, out) = (addEventListener T listener d, out)"
| "step (DispatchEvent event) (d, out) = dispatchEvent event d out"

fun run :: "'l api_call list \<Rightarrow> 'l EventDispatcher \<times> 'l call list \<Rightarrow> 'l EventDispatcher \<times> 'l call list" where
  "run [] s = s"
| "run (c # cs) s = run cs (step c s)"

text \<open>The registrations a client made, in the order it made them.\<close>

fun registrations :: "'l api_call list \<Rightarrow> (type_index \<times> 'l) list" where
  "registrations [] = []"
| "registrations (AddEventListener T listener # cs) = (T, listener) # registrations cs"
| "registrations (DispatchEvent event # cs) = registrations cs"

text \<open>
  The listener objects of \<^verbatim>\<open>main\<close>: the injector creates one object of each of the
  three concrete listener classes.
\<close>

datatype listener_object = PlayerMovementListener | EnemySpawnListener | PlayerListener

text \<open>
  The body of the registration loop of \<^verbatim>\<open>main\<close> for one listener: each of the three
  \<^verbatim>\<open>dynamic_cast\<close> tests succeeds for the object of its own class only, and the
  \<^verbatim>\<open>PlayerListener\<close> object is registered through both of its interfaces.
\<close>

fun register_listener :: "listener_object \<Rightarrow> listener_object api_call list" where
  "register_listener PlayerMovementListener =
     [AddEventListener TI_PlayerMoveEvent PlayerMovementListener]"
| "register_listener EnemySpawnListener =
     [AddEventListener TI_EnemySpawnEvent EnemySpawnListener]"
| "register_listener PlayerListener =
     [AddEventListener TI_PlayerMoveEvent PlayerListener,
      AddEventListener TI_EnemySpawnEvent PlayerListener]"

text \<open>
  The two events \<^verbatim>\<open>main\<close> publishes; \<open>10.0f\<close>, \<open>20.0f\<close>, \<open>15.0f\<close> and \<open>25.0f\<close> as
  binary32 bit patterns.
\<close>

definition move_event :: game_event where
  "move_event = PlayerMoveEvent 10001 0x41200000 0x41A00000"

definition spawn_event :: game_event where
  "spawn_event = EnemySpawnEvent ''Goblin'' 10001 0x41700000 0x41C80000"

text \<open>
  \<^verbatim>\<open>main\<close>, given the vector of listeners the injector returns: the registration
  loop, then the two publishes.
\<close>

definition main_calls :: "listener_object list \<Rightarrow> listener_object api_call list" where
  "main_calls injected =
     concat (map register_listener injected) @
     [DispatchEvent move_event, DispatchEvent spawn_event]"

text \<open>The vector in the order of the \<^verbatim>\<open>addMultibinding\<close> calls.\<close>

definition binding_order :: "listener_object list" where
  "binding_order = [PlayerMovementListener, EnemySpawnListener, PlayerListener]"

section \<open>Observations used by the properties\<close>

text \<open>
  The closures a publish of class \<open>k\<close> walks: the vector \<^verbatim>\<open>find\<close> returns, and none
  when the key is absent.
\<close>

definition entries :: "'l EventDispatcher \<Rightarrow> type_index \<Rightarrow> 'l closure list" where
  "entries d k = (case listeners d k of None \<Rightarrow> [] | Some v \<Rightarrow> v)"

text \<open>The dispatcher a client holds after its calls, starting from a new one.\<close>

definition dispatcher_after :: "'l api_call list \<Rightarrow> 'l EventDispatcher" where
  "dispatcher_after cs = fst (run cs (new_EventDispatcher, []))"

text \<open>The listeners a client registered for class \<open>V\<close>, in the order of its calls.\<close>

definition registered_for :: "type_index \<Rightarrow> 'l api_call list \<Rightarrow> 'l list" where
  "registered_for V cs = map snd (filter (\<lambda>r. fst r = V) (registrations cs))"

text \<open>A batch of registrations applied to a dispatcher.\<close>

fun register_all :: "(type_index \<times> 'l) list \<Rightarrow> 'l EventDispatcher \<Rightarrow> 'l EventDispatcher" where
  "register_all [] d = d"
| "register_all ((T, listener) # rs) d = register_all rs (addEventListener T listener d)"

section \<open>Auxiliary facts\<close>

lemma is_base_of_refl: "is_base_of T T"
  by (simp add: is_base_of_def)

lemma dynamic_cast_same: "dynamic_cast (typeid e) e = Some e"
  by (simp add: dynamic_cast_def is_base_of_refl)

lemma invoke_append: "invoke c e out = out @ invoke c e []"
  by (cases c) (simp split: option.split)

lemma for_each_append: "for_each cs e out = out @ for_each cs e []"
proof (induction cs arbitrary: out)
  case Nil
  show ?case by simp
next
  case (Cons c cs)
  have "for_each (c # cs) e out = invoke c e out @ for_each cs e []"
    using Cons.IH [of "invoke c e out"] by simp
  also have "\<dots> = out @ (invoke c e [] @ for_each cs e [])"
    using invoke_append [of c e out] by simp
  also have "invoke c e [] @ for_each cs e [] = for_each (c # cs) e []"
    using Cons.IH [of "invoke c e []"] by simp
  finally show ?case .
qed

lemma for_each_keyed:
  "\<forall>c \<in> set cs. expected c = typeid e \<Longrightarrow>
   for_each cs e out = out @ map (\<lambda>c. OnEvent (captured c) (typeid e) e) cs"
proof (induction cs arbitrary: out)
  case Nil
  show ?case by simp
next
  case (Cons c cs)
  obtain T l where c: "c = Closure T l" by (cases c)
  with Cons.prems have T: "T = typeid e" by simp
  have "invoke c e out = out @ [OnEvent l (typeid e) e]"
    by (simp add: c T dynamic_cast_same)
  with Cons show ?case by (simp add: c)
qed

lemma listeners_addEventListener:
  "listeners (addEventListener T l d) k =
     (if k = T then Some (entries d T @ [Closure T l]) else listeners d k)"
  by (simp add: addEventListener_def entries_def)

lemma entries_addEventListener:
  "entries (addEventListener T l d) k =
     (if k = T then entries d T @ [Closure T l] else entries d k)"
  by (simp add: entries_def listeners_addEventListener)

lemma entries_register_all:
  "entries (register_all rs d) k =
     entries d k @ map (Closure k) (map snd (filter (\<lambda>r. fst r = k) rs))"
proof (induction rs arbitrary: d)
  case Nil
  show ?case by simp
next
  case (Cons r rs)
  obtain T l where r: "r = (T, l)" by (cases r)
  show ?case by (simp add: r Cons.IH entries_addEventListener)
qed

lemma dispatchEvent_entries:
  "dispatchEvent e d out = (d, for_each (entries d (typeid e)) e out)"
  by (simp add: dispatchEvent_def entries_def split: option.split)

lemma run_dispatcher:
  "fst (run cs (d, out)) = register_all (registrations cs) d"
proof (induction cs arbitrary: d out)
  case Nil
  show ?case by simp
next
  case (Cons c cs)
  show ?case
  proof (cases c)
    case (AddEventListener T l)
    then show ?thesis using Cons.IH by simp
  next
    case (DispatchEvent ev)
    then show ?thesis using Cons.IH [of d "for_each (entries d (typeid ev)) ev out"]
      by (simp add: dispatchEvent_entries)
  qed
qed

lemma entries_new: "entries new_EventDispatcher k = []"
  by (simp add: entries_def new_EventDispatcher_def)

lemma entries_client:
  "entries (dispatcher_after cs) k = map (Closure k) (registered_for k cs)"
  by (simp add: dispatcher_after_def registered_for_def run_dispatcher
      entries_register_all entries_new)

lemma dispatch_client:
  "dispatchEvent e (dispatcher_after cs) out =
     (dispatcher_after cs,
      out @ map (\<lambda>l. OnEvent l (typeid e) e) (registered_for (typeid e) cs))"
proof -
  let ?d = "dispatcher_after cs"
  have "\<forall>c \<in> set (entries ?d (typeid e)). expected c = typeid e"
    by (auto simp: entries_client)
  then have "for_each (entries ?d (typeid e)) e out =
      out @ map (\<lambda>c. OnEvent (captured c) (typeid e) e) (entries ?d (typeid e))"
    by (rule for_each_keyed)
  then show ?thesis
    by (simp add: dispatchEvent_entries entries_client comp_def)
qed

lemma count_registered:
  "count_list (map (\<lambda>l. OnEvent l V e) (map snd (filter (\<lambda>r. fst r = V) rs))) (OnEvent S V e)
     = count_list rs (V, S)"
  by (induction rs) auto

lemma main_registrations:
  "registrations (main_calls binding_order) =
     [(TI_PlayerMoveEvent, PlayerMovementListener), (TI_EnemySpawnEvent, EnemySpawnListener),
      (TI_PlayerMoveEvent, PlayerListener), (TI_EnemySpawnEvent, PlayerListener)]"
  by (simp add: main_calls_def binding_order_def)

lemma main_dispatcher:
  "listeners (dispatcher_after (main_calls binding_order)) =
     [TI_PlayerMoveEvent \<mapsto> [Closure TI_PlayerMoveEvent PlayerMovementListener,
                              Closure TI_PlayerMoveEvent PlayerListener],
      TI_EnemySpawnEvent \<mapsto> [Closure TI_EnemySpawnEvent EnemySpawnListener,
                              Closure TI_EnemySpawnEvent PlayerListener]]"
  by (simp add: dispatcher_after_def run_dispatcher main_registrations new_EventDispatcher_def
      addEventListener_def fun_eq_iff)

lemma main_output:
  "snd (run (main_calls binding_order) (new_EventDispatcher, [])) =
     [OnEvent PlayerMovementListener TI_PlayerMoveEvent move_event,
      OnEvent PlayerListener TI_PlayerMoveEvent move_event,
      OnEvent EnemySpawnListener TI_EnemySpawnEvent spawn_event,
      OnEvent PlayerListener TI_EnemySpawnEvent spawn_event]"
  by (simp add: main_calls_def binding_order_def new_EventDispatcher_def addEventListener_def
      dispatchEvent_def dynamic_cast_def is_base_of_def move_event_def spawn_event_def)

lemma registrations_append:
  "registrations (cs @ cs') = registrations cs @ registrations cs'"
  by (induction cs rule: registrations.induct) simp_all

lemma run_append: "run (cs @ cs') s = run cs' (run cs s)"
  by (induction cs arbitrary: s) simp_all

lemma registered_for_other:
  "W \<noteq> V \<Longrightarrow>
   registered_for V (cs @ AddEventListener W l # cs') = registered_for V (cs @ cs')"
  by (simp add: registered_for_def registrations_append)

lemma for_each_filter:
  "for_each cs e out = for_each (filter (\<lambda>c. dynamic_cast (expected c) e \<noteq> None) cs) e out"
proof (induction cs arbitrary: out)
  case Nil
  show ?case by simp
next
  case (Cons c cs)
  obtain T l where c: "c = Closure T l" by (cases c)
  show ?case
  proof (cases "dynamic_cast T e")
    case None
    then show ?thesis using Cons.IH [of out] by (simp add: c)
  next
    case (Some te)
    then show ?thesis using Cons.IH [of "out @ [OnEvent l T te]"] by (simp add: c)
  qed
qed

section \<open>Properties of registration and publish\<close>

text \<open>
  C7. When the narrowing check of a delivery entry fails for the event it is called
  with, the entry calls no handler and leaves the output as it was; nothing is
  reported to the publisher. A whole publish loop therefore behaves as if the
  failing entries were not in the vector.
\<close>

theorem narrowing_failure_is_silent:
  "(dynamic_cast (expected c) e = None \<longrightarrow> invoke c e out = out) \<and>
   for_each cs e out =
     for_each (filter (\<lambda>c. dynamic_cast (expected c) e \<noteq> None) cs) e out"
proof
  show "dynamic_cast (expected c) e = None \<longrightarrow> invoke c e out = out"
    by (cases c) simp
  show "for_each cs e out =
     for_each (filter (\<lambda>c. dynamic_cast (expected c) e \<noteq> None) cs) e out"
    by (rule for_each_filter)
qed

theorem narrowing_failure_is_silent_witness:
  "dynamic_cast (expected (Closure TI_EnemySpawnEvent EnemySpawnListener)) move_event = None \<and>
   invoke (Closure TI_EnemySpawnEvent EnemySpawnListener) move_event
     [OnEvent PlayerListener TI_PlayerMoveEvent move_event] =
     [OnEvent PlayerListener TI_PlayerMoveEvent move_event] \<and>
   for_each [Closure TI_EnemySpawnEvent EnemySpawnListener,
             Closure TI_PlayerMoveEvent PlayerListener] move_event [] =
     [OnEvent PlayerListener TI_PlayerMoveEvent move_event]"
  using narrowing_failure_is_silent
    [of "Closure TI_EnemySpawnEvent EnemySpawnListener" move_event
        "[OnEvent PlayerListener TI_PlayerMoveEvent move_event]"
        "[Closure TI_EnemySpawnEvent EnemySpawnListener,
          Closure TI_PlayerMoveEvent PlayerListener]"]
  by (simp add: dynamic_cast_def is_base_of_def move_event_def)

text \<open>
  C8. A publish returns the dispatcher it was given: the table, keys included, is
  the same before and after, whether or not the key of the event is present. A
  registration always changes the table, and a client that makes no registration
  leaves the dispatcher as it found it.
\<close>

theorem publish_leaves_table:
  "fst (dispatchEvent e d out) = d \<and>
   listeners (fst (dispatchEvent e d out)) = listeners d \<and>
   dom (listeners (fst (dispatchEvent e d out))) = dom (listeners d) \<and>
   listeners (addEventListener T l d) \<noteq> listeners d \<and>
   (registrations cs = [] \<longrightarrow> fst (run cs (d, out)) = d)"
proof -
  have same: "fst (dispatchEvent e d out) = d"
    by (simp add: dispatchEvent_entries)
  have "listeners (addEventListener T l d) T \<noteq> listeners d T"
    by (simp add: listeners_addEventListener entries_def split: option.split)
  then have changed: "listeners (addEventListener T l d) \<noteq> listeners d"
    by metis
  have "registrations cs = [] \<longrightarrow> fst (run cs (d, out)) = d"
    by (simp add: run_dispatcher)
  with same changed show ?thesis by simp
qed

theorem publish_leaves_table_witness:
  "listeners (fst (dispatchEvent GameEvent (dispatcher_after (main_calls binding_order)) [])) =
     listeners (dispatcher_after (main_calls binding_order)) \<and>
   listeners (dispatcher_after (main_calls binding_order)) TI_GameEvent = None \<and>
   listeners (fst (dispatchEvent GameEvent (dispatcher_after (main_calls binding_order)) []))
     TI_GameEvent = None \<and>
   registrations [DispatchEvent move_event, DispatchEvent spawn_event :: listener_object api_call] = [] \<and>
   fst (run [DispatchEvent move_event, DispatchEvent spawn_event]
     (dispatcher_after (main_calls binding_order), [])) =
     dispatcher_after (main_calls binding_order)"
  using publish_leaves_table
    [of GameEvent "dispatcher_after (main_calls binding_order)" "[]" _ _
        "[DispatchEvent move_event, DispatchEvent spawn_event]"]
  by (simp add: main_dispatcher)

text \<open>
  C9. A registration for class \<open>T\<close> puts exactly one new closure at the end of the
  vector keyed by \<open>T\<close> (the empty vector when the key was absent), keeps the closures
  that were there in their order, and leaves the vector of every other key as it was.
\<close>

theorem register_appends_one_entry:
  "listeners (addEventListener T l d) T = Some (entries d T @ [Closure T l]) \<and>
   length (entries (addEventListener T l d) T) = Suc (length (entries d T)) \<and>
   take (length (entries d T)) (entries (addEventListener T l d) T) = entries d T \<and>
   (\<forall>k. k \<noteq> T \<longrightarrow> listeners (addEventListener T l d) k = listeners d k)"
  by (simp add: listeners_addEventListener entries_addEventListener)

theorem register_appends_one_entry_witness:
  "listeners (addEventListener TI_PlayerMoveEvent PlayerListener
      (addEventListener TI_PlayerMoveEvent PlayerMovementListener new_EventDispatcher))
      TI_PlayerMoveEvent =
     Some [Closure TI_PlayerMoveEvent PlayerMovementListener,
           Closure TI_PlayerMoveEvent PlayerListener] \<and>
   TI_EnemySpawnEvent \<noteq> TI_PlayerMoveEvent \<and>
   listeners (addEventListener TI_PlayerMoveEvent PlayerListener
      (addEventListener TI_PlayerMoveEvent PlayerMovementListener new_EventDispatcher))
      TI_EnemySpawnEvent = None"
  using register_appends_one_entry
    [of TI_PlayerMoveEvent PlayerListener
        "addEventListener TI_PlayerMoveEvent PlayerMovementListener new_EventDispatcher"]
  by (simp add: entries_def addEventListener_def new_EventDispatcher_def)

text \<open>
  C4. Publishing an event whose class has no registered entry (the key is absent, or
  its vector is empty) returns the dispatcher and the output unchanged: no handler
  runs and there is no failure outcome. For a client this is the case whenever it
  made no registration for the class of the event.
\<close>

theorem publish_without_entries_is_noop:
  "(entries d (typeid e) = [] \<longrightarrow> dispatchEvent e d out = (d, out)) \<and>
   (registered_for (typeid e) cs = [] \<longrightarrow>
      dispatchEvent e (dispatcher_after cs) out = (dispatcher_after cs, out))"
proof -
  have "entries d (typeid e) = [] \<longrightarrow> dispatchEvent e d out = (d, out)"
    by (simp add: dispatchEvent_entries)
  moreover have "registered_for (typeid e) cs = [] \<longrightarrow>
      dispatchEvent e (dispatcher_after cs) out = (dispatcher_after cs, out)"
    by (simp add: dispatch_client)
  ultimately show ?thesis by simp
qed

theorem publish_without_entries_is_noop_witness:
  "entries \<lparr>listeners = [TI_GameEvent \<mapsto> ([] :: listener_object closure list)]\<rparr>
      (typeid GameEvent) = [] \<and>
   dispatchEvent GameEvent \<lparr>listeners = [TI_GameEvent \<mapsto> ([] :: listener_object closure list)]\<rparr>
      [OnEvent PlayerListener TI_PlayerMoveEvent move_event] =
     (\<lparr>listeners = [TI_GameEvent \<mapsto> []]\<rparr>,
      [OnEvent PlayerListener TI_PlayerMoveEvent move_event]) \<and>
   registered_for (typeid GameEvent) (main_calls binding_order) = [] \<and>
   listeners (dispatcher_after (main_calls binding_order)) (typeid GameEvent) = None \<and>
   dispatchEvent GameEvent (dispatcher_after (main_calls binding_order))
      [OnEvent PlayerListener TI_PlayerMoveEvent move_event] =
     (dispatcher_after (main_calls binding_order),
      [OnEvent PlayerListener TI_PlayerMoveEvent move_event])"
  using publish_without_entries_is_noop
    [of "\<lparr>listeners = [TI_GameEvent \<mapsto> []]\<rparr>" GameEvent
        "[OnEvent PlayerListener TI_PlayerMoveEvent move_event]" "main_calls binding_order"]
  by (simp add: entries_def registered_for_def main_registrations main_dispatcher)

text \<open>
  C10. The handler calls a publish makes are a function of the table and the event
  alone: two publishes on dispatchers with equal tables and with equal events append
  the same sequence of calls, whatever output preceded each of them. Publishing the
  same event twice in a row repeats that sequence.
\<close>

theorem publish_is_deterministic:
  "listeners d1 = listeners d2 \<and> e1 = e2 \<longrightarrow>
     (\<exists>calls. snd (dispatchEvent e1 d1 out1) = out1 @ calls \<and>
              snd (dispatchEvent e2 d2 out2) = out2 @ calls \<and>
              snd (run [DispatchEvent e1, DispatchEvent e2] (d1, out1)) = out1 @ calls @ calls)"
proof
  assume eq: "listeners d1 = listeners d2 \<and> e1 = e2"
  let ?calls = "for_each (entries d1 (typeid e1)) e1 []"
  have same: "entries d2 (typeid e2) = entries d1 (typeid e1)"
    using eq by (simp add: entries_def)
  have 1: "snd (dispatchEvent e1 d1 out1) = out1 @ ?calls"
    using for_each_append [of "entries d1 (typeid e1)" e1 out1]
    by (simp add: dispatchEvent_entries)
  have 2: "snd (dispatchEvent e2 d2 out2) = out2 @ ?calls"
    using for_each_append [of "entries d1 (typeid e1)" e1 out2] eq same
    by (simp add: dispatchEvent_entries)
  have 3: "snd (run [DispatchEvent e1, DispatchEvent e2] (d1, out1)) = out1 @ ?calls @ ?calls"
    using for_each_append [of "entries d1 (typeid e1)" e1 out1]
      for_each_append [of "entries d1 (typeid e1)" e1 "out1 @ ?calls"] eq
    by (simp add: dispatchEvent_entries)
  from 1 2 3 show "\<exists>calls. snd (dispatchEvent e1 d1 out1) = out1 @ calls \<and>
              snd (dispatchEvent e2 d2 out2) = out2 @ calls \<and>
              snd (run [DispatchEvent e1, DispatchEvent e2] (d1, out1)) = out1 @ calls @ calls"
    by blast
qed

theorem publish_is_deterministic_witness:
  "snd (dispatchEvent move_event (dispatcher_after (main_calls binding_order)) []) =
     [OnEvent PlayerMovementListener TI_PlayerMoveEvent move_event,
      OnEvent PlayerListener TI_PlayerMoveEvent move_event] \<and>
   snd (dispatchEvent move_event (dispatcher_after (concat (map register_listener binding_order)))
        [OnEvent EnemySpawnListener TI_EnemySpawnEvent spawn_event]) =
     [OnEvent EnemySpawnListener TI_EnemySpawnEvent spawn_event,
      OnEvent PlayerMovementListener TI_PlayerMoveEvent move_event,
      OnEvent PlayerListener TI_PlayerMoveEvent move_event]"
proof -
  have tables: "listeners (dispatcher_after (main_calls binding_order)) =
      listeners (dispatcher_after (concat (map register_listener binding_order)))"
    by (simp add: dispatcher_after_def run_dispatcher main_calls_def registrations_append)
  have first: "snd (dispatchEvent move_event (dispatcher_after (main_calls binding_order)) []) =
     [OnEvent PlayerMovementListener TI_PlayerMoveEvent move_event,
      OnEvent PlayerListener TI_PlayerMoveEvent move_event]"
    by (simp add: dispatchEvent_def main_dispatcher dynamic_cast_def is_base_of_def
        move_event_def)
  from tables first show ?thesis
    using publish_is_deterministic
      [of "dispatcher_after (main_calls binding_order)"
          "dispatcher_after (concat (map register_listener binding_order))"
          move_event move_event "[]"
          "[OnEvent EnemySpawnListener TI_EnemySpawnEvent spawn_event]"]
    by auto
qed

text \<open>
  C3. One publish of an event of class \<open>V\<close> walks exactly the closures registered for
  \<open>V\<close>, and calls their handlers, in the order in which the client registered them
  for \<open>V\<close>. A registration for another class, wherever it stands among the client's
  calls, changes neither the calls nor their order.
\<close>

theorem publish_in_registration_order:
  "entries (dispatcher_after cs) (typeid e) =
     map (Closure (typeid e)) (registered_for (typeid e) cs) \<and>
   dispatchEvent e (dispatcher_after cs) out =
     (dispatcher_after cs,
      out @ map (\<lambda>l. OnEvent l (typeid e) e) (registered_for (typeid e) cs)) \<and>
   (W \<noteq> typeid e \<longrightarrow>
      snd (dispatchEvent e (dispatcher_after (cs1 @ AddEventListener W l # cs2)) out) =
      snd (dispatchEvent e (dispatcher_after (cs1 @ cs2)) out))"
proof -
  have "W \<noteq> typeid e \<longrightarrow>
      snd (dispatchEvent e (dispatcher_after (cs1 @ AddEventListener W l # cs2)) out) =
      snd (dispatchEvent e (dispatcher_after (cs1 @ cs2)) out)"
    by (simp add: dispatch_client registered_for_other)
  then show ?thesis
    by (simp add: entries_client dispatch_client)
qed

theorem publish_in_registration_order_witness:
  "registered_for (typeid move_event) (main_calls binding_order) =
     [PlayerMovementListener, PlayerListener] \<and>
   snd (dispatchEvent move_event (dispatcher_after (main_calls binding_order)) []) =
     [OnEvent PlayerMovementListener TI_PlayerMoveEvent move_event,
      OnEvent PlayerListener TI_PlayerMoveEvent move_event] \<and>
   TI_EnemySpawnEvent \<noteq> typeid move_event \<and>
   snd (dispatchEvent move_event
     (dispatcher_after ([AddEventListener TI_PlayerMoveEvent PlayerMovementListener] @
        AddEventListener TI_EnemySpawnEvent EnemySpawnListener #
        [AddEventListener TI_PlayerMoveEvent PlayerListener])) []) =
   snd (dispatchEvent move_event
     (dispatcher_after ([AddEventListener TI_PlayerMoveEvent PlayerMovementListener] @
        [AddEventListener TI_PlayerMoveEvent PlayerListener])) [])"
  using publish_in_registration_order
    [of "main_calls binding_order" move_event "[]" TI_EnemySpawnEvent
        "[AddEventListener TI_PlayerMoveEvent PlayerMovementListener]" EnemySpawnListener
        "[AddEventListener TI_PlayerMoveEvent PlayerListener]"]
  by (simp add: registered_for_def main_registrations move_event_def)

text \<open>
  C1. Publishing an event of class \<open>V\<close> after any sequence of client calls appends,
  for every listener \<open>S\<close>, as many calls of \<open>S\<close>'s handler for \<open>V\<close> with that event as
  the client registered \<open>S\<close> for \<open>V\<close>. Nothing removes duplicates: a listener
  registered twice for \<open>V\<close> is called twice.
\<close>

theorem publish_once_per_registration:
  "(\<exists>calls. dispatchEvent e (dispatcher_after cs) out = (dispatcher_after cs, out @ calls) \<and>
      (\<forall>S. count_list calls (OnEvent S (typeid e) e) =
            count_list (registrations cs) (typeid e, S))) \<and>
   snd (dispatchEvent e
     (dispatcher_after [AddEventListener (typeid e) S, AddEventListener (typeid e) S]) out) =
     out @ [OnEvent S (typeid e) e, OnEvent S (typeid e) e]"
proof
  let ?calls = "map (\<lambda>l. OnEvent l (typeid e) e) (registered_for (typeid e) cs)"
  have "dispatchEvent e (dispatcher_after cs) out = (dispatcher_after cs, out @ ?calls)"
    by (rule dispatch_client)
  moreover have "\<forall>S. count_list ?calls (OnEvent S (typeid e) e) =
      count_list (registrations cs) (typeid e, S)"
    using count_registered [of "typeid e" e "registrations cs"]
    by (simp only: registered_for_def) simp
  ultimately show "\<exists>calls.
      dispatchEvent e (dispatcher_after cs) out = (dispatcher_after cs, out @ calls) \<and>
      (\<forall>S. count_list calls (OnEvent S (typeid e) e) =
            count_list (registrations cs) (typeid e, S))"
    by blast
  show "snd (dispatchEvent e
     (dispatcher_after [AddEventListener (typeid e) S, AddEventListener (typeid e) S]) out) =
     out @ [OnEvent S (typeid e) e, OnEvent S (typeid e) e]"
    by (simp add: dispatch_client registered_for_def)
qed

theorem publish_once_per_registration_witness:
  "count_list (registrations (main_calls binding_order))
      (typeid move_event, PlayerListener) = 1 \<and>
   count_list (snd (dispatchEvent move_event (dispatcher_after (main_calls binding_order)) []))
      (OnEvent PlayerListener (typeid move_event) move_event) = 1 \<and>
   snd (dispatchEvent move_event
     (dispatcher_after [AddEventListener TI_PlayerMoveEvent PlayerListener,
                        AddEventListener TI_PlayerMoveEvent PlayerListener]) []) =
     [OnEvent PlayerListener TI_PlayerMoveEvent move_event,
      OnEvent PlayerListener TI_PlayerMoveEvent move_event]"
  using publish_once_per_registration
    [of move_event "main_calls binding_order" "[]" PlayerListener]
  by (auto simp: main_registrations move_event_def)

text \<open>
  C2. When an event of class \<open>B\<close> is published, no closure registered for a different
  class \<open>A\<close> is among the closures walked, and no handler for \<open>A\<close> is called; every
  call made is a call of a handler for \<open>B\<close> with the published event. This holds for
  all pairs of distinct classes, the two derived classes with their common base
  included. A listener registered once for the class of \<open>e\<close> and once for the
  different class of \<open>b\<close> gets exactly its handler for the first on a publish of
  \<open>e\<close> and exactly its handler for the second on a publish of \<open>b\<close>.
\<close>

theorem no_delivery_across_variants:
  "A \<noteq> typeid e \<longrightarrow>
     Closure A l \<notin> set (entries (dispatcher_after cs) (typeid e)) \<and>
     (\<exists>calls. dispatchEvent e (dispatcher_after cs) out = (dispatcher_after cs, out @ calls) \<and>
        (\<forall>ev. OnEvent l A ev \<notin> set calls) \<and>
        (\<forall>c \<in> set calls. \<exists>l'. c = OnEvent l' (typeid e) e)) \<and>
     (typeid b = A \<longrightarrow>
        snd (dispatchEvent e
          (dispatcher_after [AddEventListener (typeid e) S, AddEventListener A S]) out) =
          out @ [OnEvent S (typeid e) e] \<and>
        snd (dispatchEvent b
          (dispatcher_after [AddEventListener (typeid e) S, AddEventListener A S]) out) =
          out @ [OnEvent S A b])"
proof
  assume neq: "A \<noteq> typeid e"
  let ?calls = "map (\<lambda>l. OnEvent l (typeid e) e) (registered_for (typeid e) cs)"
  have walked: "Closure A l \<notin> set (entries (dispatcher_after cs) (typeid e))"
    using neq by (auto simp: entries_client)
  have "dispatchEvent e (dispatcher_after cs) out = (dispatcher_after cs, out @ ?calls)"
    by (rule dispatch_client)
  moreover have "\<forall>ev. OnEvent l A ev \<notin> set ?calls"
    using neq by auto
  moreover have "\<forall>c \<in> set ?calls. \<exists>l'. c = OnEvent l' (typeid e) e"
    by auto
  ultimately have calls: "\<exists>calls.
      dispatchEvent e (dispatcher_after cs) out = (dispatcher_after cs, out @ calls) \<and>
      (\<forall>ev. OnEvent l A ev \<notin> set calls) \<and>
      (\<forall>c \<in> set calls. \<exists>l'. c = OnEvent l' (typeid e) e)"
    by blast
  have both: "typeid b = A \<longrightarrow>
        snd (dispatchEvent e
          (dispatcher_after [AddEventListener (typeid e) S, AddEventListener A S]) out) =
          out @ [OnEvent S (typeid e) e] \<and>
        snd (dispatchEvent b
          (dispatcher_after [AddEventListener (typeid e) S, AddEventListener A S]) out) =
          out @ [OnEvent S A b]"
    using neq by (auto simp: dispatch_client registered_for_def)
  from walked calls both show "Closure A l \<notin> set (entries (dispatcher_after cs) (typeid e)) \<and>
     (\<exists>calls. dispatchEvent e (dispatcher_after cs) out = (dispatcher_after cs, out @ calls) \<and>
        (\<forall>ev. OnEvent l A ev \<notin> set calls) \<and>
        (\<forall>c \<in> set calls. \<exists>l'. c = OnEvent l' (typeid e) e)) \<and>
     (typeid b = A \<longrightarrow>
        snd (dispatchEvent e
          (dispatcher_after [AddEventListener (typeid e) S, AddEventListener A S]) out) =
          out @ [OnEvent S (typeid e) e] \<and>
        snd (dispatchEvent b
          (dispatcher_after [AddEventListener (typeid e) S, AddEventListener A S]) out) =
          out @ [OnEvent S A b])"
    by blast
qed

theorem no_delivery_across_variants_witness:
  "TI_EnemySpawnEvent \<noteq> typeid move_event \<and>
   is_base_of TI_GameEvent TI_EnemySpawnEvent \<and>
   is_base_of TI_GameEvent (typeid move_event) \<and>
   (TI_EnemySpawnEvent, PlayerListener) \<in> set (registrations (main_calls binding_order)) \<and>
   Closure TI_EnemySpawnEvent PlayerListener \<notin>
     set (entries (dispatcher_after (main_calls binding_order)) (typeid move_event)) \<and>
   OnEvent PlayerListener TI_EnemySpawnEvent move_event \<notin>
     set (snd (dispatchEvent move_event (dispatcher_after (main_calls binding_order)) [])) \<and>
   typeid spawn_event = TI_EnemySpawnEvent \<and>
   snd (dispatchEvent move_event
     (dispatcher_after [AddEventListener (typeid move_event) PlayerListener,
                        AddEventListener TI_EnemySpawnEvent PlayerListener]) []) =
     [OnEvent PlayerListener TI_PlayerMoveEvent move_event] \<and>
   snd (dispatchEvent spawn_event
     (dispatcher_after [AddEventListener (typeid move_event) PlayerListener,
                        AddEventListener TI_EnemySpawnEvent PlayerListener]) []) =
     [OnEvent PlayerListener TI_EnemySpawnEvent spawn_event]"
proof -
  have types: "typeid move_event = TI_PlayerMoveEvent" "typeid spawn_event = TI_EnemySpawnEvent"
    by (simp_all add: move_event_def spawn_event_def)
  have bases: "is_base_of TI_GameEvent TI_EnemySpawnEvent"
    "is_base_of TI_GameEvent TI_PlayerMoveEvent"
    by (simp_all add: is_base_of_def)
  show ?thesis
    using no_delivery_across_variants
      [of TI_EnemySpawnEvent move_event PlayerListener "main_calls binding_order" "[]"
          spawn_event PlayerListener]
    by (auto simp: types bases main_registrations)
qed

text \<open>
  C5. Delivery does not follow the class hierarchy. Let \<open>B\<close> be a strict base of the
  dynamic class of \<open>e\<close>. A closure registered for \<open>B\<close> would accept \<open>e\<close> if it were
  called: its narrowing check succeeds and it calls the handler. But a publish of
  \<open>e\<close> reads the table at the dynamic class of \<open>e\<close> only (two dispatchers that agree at
  that key make the same calls), closures for \<open>B\<close> are not in that vector, and so no
  handler for \<open>B\<close> is called, however the client registered.
\<close>

theorem no_delivery_to_base_entries:
  "is_base_of B (typeid e) \<and> B \<noteq> typeid e \<longrightarrow>
     invoke (Closure B l) e out = out @ [OnEvent l B e] \<and>
     Closure B l \<notin> set (entries (dispatcher_after cs) (typeid e)) \<and>
     (\<exists>calls. dispatchEvent e (dispatcher_after cs) out = (dispatcher_after cs, out @ calls) \<and>
        (\<forall>ev. OnEvent l B ev \<notin> set calls)) \<and>
     (listeners d (typeid e) = listeners d' (typeid e) \<longrightarrow>
        snd (dispatchEvent e d out) = snd (dispatchEvent e d' out))"
proof
  assume base: "is_base_of B (typeid e) \<and> B \<noteq> typeid e"
  let ?calls = "map (\<lambda>l. OnEvent l (typeid e) e) (registered_for (typeid e) cs)"
  have accepts: "invoke (Closure B l) e out = out @ [OnEvent l B e]"
    using base by (simp add: dynamic_cast_def)
  have walked: "Closure B l \<notin> set (entries (dispatcher_after cs) (typeid e))"
    using base by (auto simp: entries_client)
  have "dispatchEvent e (dispatcher_after cs) out = (dispatcher_after cs, out @ ?calls)"
    by (rule dispatch_client)
  moreover have "\<forall>ev. OnEvent l B ev \<notin> set ?calls"
    using base by auto
  ultimately have calls: "\<exists>calls.
      dispatchEvent e (dispatcher_after cs) out = (dispatcher_after cs, out @ calls) \<and>
      (\<forall>ev. OnEvent l B ev \<notin> set calls)"
    by blast
  have key: "listeners d (typeid e) = listeners d' (typeid e) \<longrightarrow>
        snd (dispatchEvent e d out) = snd (dispatchEvent e d' out)"
    by (simp add: dispatchEvent_def split: option.split)
  from accepts walked calls key show "invoke (Closure B l) e out = out @ [OnEvent l B e] \<and>
     Closure B l \<notin> set (entries (dispatcher_after cs) (typeid e)) \<and>
     (\<exists>calls. dispatchEvent e (dispatcher_after cs) out = (dispatcher_after cs, out @ calls) \<and>
        (\<forall>ev. OnEvent l B ev \<notin> set calls)) \<and>
     (listeners d (typeid e) = listeners d' (typeid e) \<longrightarrow>
        snd (dispatchEvent e d out) = snd (dispatchEvent e d' out))"
    by blast
qed

theorem no_delivery_to_base_entries_witness:
  "is_base_of TI_GameEvent (typeid move_event) \<and> TI_GameEvent \<noteq> typeid move_event \<and>
   invoke (Closure TI_GameEvent ''base listener'') move_event [] =
     [OnEvent ''base listener'' TI_GameEvent move_event] \<and>
   registrations [AddEventListener TI_GameEvent ''base listener'',
                  AddEventListener TI_PlayerMoveEvent ''move listener''] =
     [(TI_GameEvent, ''base listener''), (TI_PlayerMoveEvent, ''move listener'')] \<and>
   OnEvent ''base listener'' TI_GameEvent move_event \<notin>
     set (snd (dispatchEvent move_event
       (dispatcher_after [AddEventListener TI_GameEvent ''base listener'',
                          AddEventListener TI_PlayerMoveEvent ''move listener'']) [])) \<and>
   snd (dispatchEvent move_event
       (dispatcher_after [AddEventListener TI_GameEvent ''base listener'',
                          AddEventListener TI_PlayerMoveEvent ''move listener'']) []) =
   snd (dispatchEvent move_event
       (dispatcher_after [AddEventListener TI_PlayerMoveEvent ''move listener'']) [])"
proof -
  have types: "typeid move_event = TI_PlayerMoveEvent"
    by (simp add: move_event_def)
  have base: "is_base_of TI_GameEvent TI_PlayerMoveEvent"
    by (simp add: is_base_of_def)
  have tables: "listeners (dispatcher_after [AddEventListener TI_GameEvent ''base listener'',
        AddEventListener TI_PlayerMoveEvent ''move listener'']) TI_PlayerMoveEvent =
      listeners (dispatcher_after [AddEventListener TI_PlayerMoveEvent ''move listener''])
        TI_PlayerMoveEvent"
    by (simp add: dispatcher_after_def new_EventDispatcher_def addEventListener_def)
  show ?thesis
    using no_delivery_to_base_entries
      [of TI_GameEvent move_event "''base listener''" "[]"
          "[AddEventListener TI_GameEvent ''base listener'',
            AddEventListener TI_PlayerMoveEvent ''move listener'']"
          "dispatcher_after [AddEventListener TI_GameEvent ''base listener'',
            AddEventListener TI_PlayerMoveEvent ''move listener'']"
          "dispatcher_after [AddEventListener TI_PlayerMoveEvent ''move listener'']"]
      tables
    by (auto simp: types base)
qed

text \<open>
  C6. Whatever calls a client makes, every closure that a publish of \<open>e\<close> finds in the
  table was registered for the dynamic class of \<open>e\<close>; its narrowing check succeeds
  and it calls its handler with \<open>e\<close>. The branch that skips the handler is never
  taken through \<^verbatim>\<open>addEventListener\<close> and \<^verbatim>\<open>dispatchEvent\<close>. A publish that follows
  the calls \<open>pre\<close> runs on \<open>dispatcher_after pre\<close>, so this covers every publish
  of every client.
\<close>

theorem narrowing_succeeds_on_routed_events:
  "(c \<in> set (entries (dispatcher_after pre) (typeid e)) \<longrightarrow>
      expected c = typeid e \<and>
      dynamic_cast (expected c) e = Some e \<and>
      invoke c e out = out @ [OnEvent (captured c) (typeid e) e]) \<and>
   fst (run pre (new_EventDispatcher, [])) = dispatcher_after pre \<and>
   run (pre @ [DispatchEvent e]) (new_EventDispatcher, []) =
     dispatchEvent e (dispatcher_after pre) (snd (run pre (new_EventDispatcher, []))) \<and>
   length (snd (dispatchEvent e (dispatcher_after pre) out)) =
     length out + length (entries (dispatcher_after pre) (typeid e))"
proof -
  have routed: "c \<in> set (entries (dispatcher_after pre) (typeid e)) \<longrightarrow>
      expected c = typeid e \<and>
      dynamic_cast (expected c) e = Some e \<and>
      invoke c e out = out @ [OnEvent (captured c) (typeid e) e]"
  proof
    assume "c \<in> set (entries (dispatcher_after pre) (typeid e))"
    then obtain l where c: "c = Closure (typeid e) l"
      by (auto simp: entries_client)
    show "expected c = typeid e \<and>
      dynamic_cast (expected c) e = Some e \<and>
      invoke c e out = out @ [OnEvent (captured c) (typeid e) e]"
      by (simp add: c dynamic_cast_same)
  qed
  have state: "fst (run pre (new_EventDispatcher, [])) = dispatcher_after pre"
    by (simp add: dispatcher_after_def)
  have "run (pre @ [DispatchEvent e]) (new_EventDispatcher, []) =
      step (DispatchEvent e) (run pre (new_EventDispatcher, []))"
    by (simp add: run_append)
  also have "\<dots> = dispatchEvent e (dispatcher_after pre) (snd (run pre (new_EventDispatcher, [])))"
    by (cases "run pre (new_EventDispatcher, [] :: 'a call list)")
      (simp add: dispatcher_after_def)
  finally have publish: "run (pre @ [DispatchEvent e]) (new_EventDispatcher, []) =
     dispatchEvent e (dispatcher_after pre) (snd (run pre (new_EventDispatcher, [])))" .
  have count: "length (snd (dispatchEvent e (dispatcher_after pre) out)) =
     length out + length (entries (dispatcher_after pre) (typeid e))"
    by (simp add: dispatch_client entries_client)
  from routed state publish count show ?thesis by blast
qed

theorem narrowing_succeeds_on_routed_events_witness:
  "Closure TI_PlayerMoveEvent PlayerListener \<in>
     set (entries (dispatcher_after (main_calls binding_order)) (typeid move_event)) \<and>
   dynamic_cast (expected (Closure TI_PlayerMoveEvent PlayerListener)) move_event =
     Some move_event \<and>
   invoke (Closure TI_PlayerMoveEvent PlayerListener) move_event [] =
     [OnEvent PlayerListener TI_PlayerMoveEvent move_event] \<and>
   length (snd (dispatchEvent move_event (dispatcher_after (main_calls binding_order)) [])) = 2"
proof -
  have types: "typeid move_event = TI_PlayerMoveEvent"
    by (simp add: move_event_def)
  have walked: "entries (dispatcher_after (main_calls binding_order)) TI_PlayerMoveEvent =
      [Closure TI_PlayerMoveEvent PlayerMovementListener,
       Closure TI_PlayerMoveEvent PlayerListener]"
    by (simp add: entries_def main_dispatcher)
  show ?thesis
    using narrowing_succeeds_on_routed_events
      [of "Closure TI_PlayerMoveEvent PlayerListener" "main_calls binding_order"
          move_event "[]"]
    by (simp add: types walked)
qed

end
